theory Spec2Isabelle
  imports Complex_Main "HOL-Library.AList" "HOL-Library.Finite_Map"
begin

section \<open>The tracking server of \<open>src/app.js\<close>\<close>

text \<open>
  The server keeps two variables, \<open>connectedUsers\<close> (a JavaScript \<open>Map\<close> from socket id to
  a user object) and \<open>busUser\<close> (\<open>null\<close> or a user object), and registers five handlers per
  socket. Each handler is modelled as a function from the socket id, the payload and the
  state before to the state after and the list of \<open>emit\<close> calls it makes, in order.
\<close>

subsection \<open>Values\<close>

type_synonym sid = string

text \<open>
  What a client can send as the argument of an event: a JSON value, or \<open>undefined\<close> when it
  sends none. An object is the finite map from its property names to their values. A string
  is the list of its code units.
\<close>

datatype jsval =
    JUndefined
  | JNull
  | JBool bool
  | JNum real
  | JStr string
  | JArr "jsval list"
  | JObj "(string, jsval) fmap"

text \<open>
  The own enumerable properties of a value, which are what a spread \<open>...data\<close> in an object
  literal copies: those of an object are its properties, those of an array or of a string are
  its elements under the keys \<open>"0"\<close>, \<open>"1"\<close> and so on, and \<open>undefined\<close>, \<open>null\<close>, a boolean
  and a number have none. \<open>index_key\<close> writes an index in decimal.
\<close>

definition digit :: "nat \<Rightarrow> char" where
  "digit n = ''0123456789'' ! (n mod 10)"

fun index_key :: "nat \<Rightarrow> string" where
  "index_key n = (if n < 10 then [digit n] else index_key (n div 10) @ [digit n])"

declare index_key.simps [simp del]

fun own_props :: "jsval \<Rightarrow> (string, jsval) fmap" where
  "own_props (JObj m) = m"
| "own_props (JArr xs) = fmap_of_list (zip (map index_key [0..<length xs]) xs)"
| "own_props (JStr s) =
     fmap_of_list (zip (map index_key [0..<length s]) (map (\<lambda>c. JStr [c]) s))"
| "own_props JUndefined = fmempty"
| "own_props JNull = fmempty"
| "own_props (JBool b) = fmempty"
| "own_props (JNum x) = fmempty"

text \<open>
  The user object \<open>{ id, isBus, location }\<close>. The field \<open>id\<close> is called \<open>uid\<close> here.
  \<open>location\<close> is \<open>null\<close> until the first report.
\<close>

record user =
  uid :: sid
  isBus :: bool
  location :: jsval

subsection \<open>The \<open>Map\<close> of connected users\<close>

text \<open>
  A JavaScript \<open>Map\<close> keeps its keys in insertion order; \<open>set\<close> on a present key replaces
  the value in place and on an absent key appends; \<open>delete\<close> removes the key. That is an
  association list with \<open>map_of\<close>, \<open>AList.update\<close> and \<open>AList.delete\<close>. The values are
  objects, so \<open>has(k)\<close> holds exactly when \<open>get(k)\<close> is not \<open>undefined\<close>.

  The handlers mutate the object that \<open>get\<close> returns and then \<open>set\<close> it again; the only other
  reference to a user's fields is \<open>busUser\<close>, which is a fresh object made by a spread, so
  a mutation of a registry entry never shows through \<open>busUser\<close> and value semantics is exact.
\<close>

type_synonym registry = "(sid \<times> user) list"

definition map_get :: "registry \<Rightarrow> sid \<Rightarrow> user option" where
  "map_get m k = map_of m k"

definition map_has :: "registry \<Rightarrow> sid \<Rightarrow> bool" where
  "map_has m k = (map_of m k \<noteq> None)"

definition map_set :: "sid \<Rightarrow> user \<Rightarrow> registry \<Rightarrow> registry" where
  "map_set k v m = AList.update k v m"

definition map_delete :: "sid \<Rightarrow> registry \<Rightarrow> registry" where
  "map_delete k m = AList.delete k m"

definition map_values :: "registry \<Rightarrow> user list" where
  "map_values m = map snd m"

subsection \<open>Outbound events\<close>

text \<open>
  The payload of each event the server emits:
  \<^item> \<open>users-list\<close>: \<open>{ users: Array.from(connectedUsers.values()), currentBus: busUser }\<close>;
  \<^item> \<open>receive-location\<close>: the object \<open>{ id: socket.id, isBus: user?.isBus || false, ...data }\<close>,
    computed by \<open>location_object\<close> below;
  \<^item> \<open>bus-status-changed\<close>: \<open>{ isBus }\<close>;
  \<^item> \<open>bus-user-changed\<close>: \<open>{ busUserId, busUser }\<close>;
  \<^item> \<open>user-disconnected\<close>: the socket id.
\<close>

datatype event =
    UsersList "user list" "user option"
  | ReceiveLocation "(string, jsval) fmap"
  | BusStatusChanged bool
  | BusUserChanged "sid option" "user option"
  | UserDisconnected sid

text \<open>
  The three ways the handlers send: \<open>socket.emit\<close> (to the handler's own socket),
  \<open>io.emit\<close> (to every socket connected to the namespace) and \<open>io.to(id).emit\<close> (to the
  room \<open>id\<close>; the only rooms are the ones each socket joins under its own id).
\<close>

datatype emit =
    SocketEmit sid event
  | IoEmit event
  | IoToEmit sid event

fun payload :: "emit \<Rightarrow> event" where
  "payload (SocketEmit s e) = e"
| "payload (IoEmit e) = e"
| "payload (IoToEmit r e) = e"

fun recipients :: "sid set \<Rightarrow> emit \<Rightarrow> sid set" where
  "recipients socks (SocketEmit s e) = {s} \<inter> socks"
| "recipients socks (IoEmit e) = socks"
| "recipients socks (IoToEmit r e) = {r} \<inter> socks"

text \<open>The events one socket receives from a list of emit calls, in order.\<close>

fun delivered :: "sid set \<Rightarrow> emit list \<Rightarrow> sid \<Rightarrow> event list" where
  "delivered socks [] r = []"
| "delivered socks (e # es) r =
     (if r \<in> recipients socks e then payload e # delivered socks es r
      else delivered socks es r)"

subsection \<open>State\<close>

text \<open>
  \<open>connectedUsers\<close> and \<open>busUser\<close> are the two variables of the server. \<open>sockets\<close> is the
  set of sockets connected to the namespace, which socket.io maintains: a socket is in it
  when its \<open>connection\<close> callback runs and no longer in it when its \<open>disconnect\<close> handler runs.
\<close>

record server =
  connectedUsers :: registry
  busUser :: "user option"
  sockets :: "sid set"

definition init_server :: server where
  "init_server = \<lparr>connectedUsers = [], busUser = None, sockets = {}\<rparr>"

subsection \<open>Handlers\<close>

text \<open>The \<open>connection\<close> callback up to the registration of the handlers (lines 21 to 32).\<close>

definition on_connection :: "sid \<Rightarrow> server \<Rightarrow> server \<times> emit list" where
  "on_connection s st =
     (let st1 = st\<lparr>connectedUsers :=
                  map_set s \<lparr>uid = s, isBus = False, location = JNull\<rparr> (connectedUsers st)\<rparr>
      in (st1, [SocketEmit s (UsersList (map_values (connectedUsers st1)) (busUser st1))]))"

text \<open>
  The object \<open>{ id: socket.id, isBus: b, ...data }\<close> of lines 41 to 43. The spread comes
  last, so the own properties of \<open>data\<close> are added to \<open>id\<close> and \<open>isBus\<close> and replace them
  where \<open>data\<close> has a property of that name (\<open>fmadd m n\<close> is \<open>m\<close> overridden by \<open>n\<close>).
\<close>

definition location_object :: "sid \<Rightarrow> bool \<Rightarrow> jsval \<Rightarrow> (string, jsval) fmap" where
  "location_object s b d =
     fmadd (fmap_of_list [(''id'', JStr s), (''isBus'', JBool b)]) (own_props d)"

text \<open>
  \<open>send-location\<close> (lines 34 to 45). The location is stored only when the user is found; the
  \<open>io.emit\<close> is outside that test, and \<open>user?.isBus || false\<close> is \<open>false\<close> for a missing user.
\<close>

definition on_send_location :: "sid \<Rightarrow> jsval \<Rightarrow> server \<Rightarrow> server \<times> emit list" where
  "on_send_location s d st =
     (let user = map_get (connectedUsers st) s;
          st1 = (case user of
                   Some u \<Rightarrow> st\<lparr>connectedUsers := map_set s (u\<lparr>location := d\<rparr>) (connectedUsers st)\<rparr>
                 | None \<Rightarrow> st)
      in (st1, [IoEmit (ReceiveLocation
                  (location_object s (case user of Some u \<Rightarrow> isBus u | None \<Rightarrow> False) d))]))"

text \<open>
  The object \<open>{ id: socket.id, ...user }\<close>: the spread comes after \<open>id\<close>, so all three
  properties, \<open>id\<close> too, are the user's.
\<close>

definition bus_object :: "sid \<Rightarrow> user \<Rightarrow> user" where
  "bus_object s u = \<lparr>uid = s, isBus = isBus u, location = location u\<rparr>\<lparr>uid := uid u\<rparr>"

text \<open>\<open>set-as-bus\<close> (lines 47 to 62).\<close>

definition on_set_as_bus :: "sid \<Rightarrow> server \<Rightarrow> server \<times> emit list" where
  "on_set_as_bus s st =
     (let (st1, out1) =
            (case busUser st of
               None \<Rightarrow> (st, [])
             | Some b \<Rightarrow>
                 (if map_has (connectedUsers st) (uid b) then
                    (case map_get (connectedUsers st) (uid b) of
                       None \<Rightarrow> (st, [])
                     | Some prevBus \<Rightarrow>
                         (st\<lparr>connectedUsers :=
                               map_set (uid b) (prevBus\<lparr>isBus := False\<rparr>) (connectedUsers st)\<rparr>,
                          [IoToEmit (uid b) (BusStatusChanged False)]))
                  else (st, [])))
      in (case map_get (connectedUsers st1) s of
            None \<Rightarrow> (st1, out1)
          | Some u \<Rightarrow>
              (let user = u\<lparr>isBus := True\<rparr>;
                   bus = bus_object s user
               in (st1\<lparr>connectedUsers := map_set s user (connectedUsers st1),
                        busUser := Some bus\<rparr>,
                   out1 @ [SocketEmit s (BusStatusChanged True),
                           IoEmit (BusUserChanged (Some s) (Some bus))]))))"

text \<open>\<open>remove-bus\<close> (lines 64 to 75).\<close>

definition on_remove_bus :: "sid \<Rightarrow> server \<Rightarrow> server \<times> emit list" where
  "on_remove_bus s st =
     (case busUser st of
        None \<Rightarrow> (st, [])
      | Some b \<Rightarrow>
          (if uid b = s then
             (let st1 = (case map_get (connectedUsers st) s of
                           Some u \<Rightarrow> st\<lparr>connectedUsers :=
                                         map_set s (u\<lparr>isBus := False\<rparr>) (connectedUsers st)\<rparr>
                         | None \<Rightarrow> st)
              in (st1\<lparr>busUser := None\<rparr>,
                  [IoEmit (BusUserChanged None None), SocketEmit s (BusStatusChanged False)]))
           else (st, [])))"

text \<open>\<open>disconnect\<close> (lines 77 to 85).\<close>

definition on_disconnect :: "sid \<Rightarrow> server \<Rightarrow> server \<times> emit list" where
  "on_disconnect s st =
     (let (st1, out1) =
            (case busUser st of
               None \<Rightarrow> (st, [])
             | Some b \<Rightarrow>
                 (if uid b = s then (st\<lparr>busUser := None\<rparr>, [IoEmit (BusUserChanged None None)])
                  else (st, [])))
      in (st1\<lparr>connectedUsers := map_delete s (connectedUsers st1)\<rparr>,
          out1 @ [IoEmit (UserDisconnected s)]))"

subsection \<open>The server as a transition system\<close>

datatype input =
    Connection sid
  | SendLocation sid jsval
  | SetAsBus sid
  | RemoveBus sid
  | Disconnect sid

text \<open>
  One inbound event, handled to completion. socket.io adds the socket to the namespace
  before the \<open>connection\<close> callback and removes it before the \<open>disconnect\<close> handler.
\<close>

fun step :: "input \<Rightarrow> server \<Rightarrow> server \<times> emit list" where
  "step (Connection s) st = on_connection s (st\<lparr>sockets := insert s (sockets st)\<rparr>)"
| "step (SendLocation s d) st = on_send_location s d st"
| "step (SetAsBus s) st = on_set_as_bus s st"
| "step (RemoveBus s) st = on_remove_bus s st"
| "step (Disconnect s) st = on_disconnect s (st\<lparr>sockets := sockets st - {s}\<rparr>)"

fun run :: "input list \<Rightarrow> server \<Rightarrow> server" where
  "run [] st = st"
| "run (i # ins) st = run ins (fst (step i st))"

text \<open>
  The handlers of a socket are registered inside its \<open>connection\<close> callback and fire only
  while it is connected, and socket.io gives a new connection an id that no connected socket
  has. \<open>well_formed\<close> says that a sequence of inbound events respects that.
\<close>

fun enabled :: "input \<Rightarrow> server \<Rightarrow> bool" where
  "enabled (Connection s) st = (s \<notin> sockets st)"
| "enabled (SendLocation s d) st = (s \<in> sockets st)"
| "enabled (SetAsBus s) st = (s \<in> sockets st)"
| "enabled (RemoveBus s) st = (s \<in> sockets st)"
| "enabled (Disconnect s) st = (s \<in> sockets st)"

fun well_formed :: "input list \<Rightarrow> server \<Rightarrow> bool" where
  "well_formed [] st = True"
| "well_formed (i # ins) st = (enabled i st \<and> well_formed ins (fst (step i st)))"

definition reachable :: "server \<Rightarrow> bool" where
  "reachable st = (\<exists>ins. well_formed ins init_server \<and> st = run ins init_server)"

subsection \<open>Properties of states\<close>

text \<open>The connection the designation refers to, if any.\<close>

definition designation :: "server \<Rightarrow> sid option" where
  "designation st = map_option uid (busUser st)"

text \<open>The number of registered connections whose role flag is bus is at most one.\<close>

definition at_most_one_bus :: "server \<Rightarrow> bool" where
  "at_most_one_bus st = (length (filter (\<lambda>(k, u). isBus u) (connectedUsers st)) \<le> 1)"

text \<open>If the designation is set, the connection it refers to is registered with role bus.\<close>

definition designation_valid :: "server \<Rightarrow> bool" where
  "designation_valid st =
     (case busUser st of
        None \<Rightarrow> True
      | Some b \<Rightarrow> (case map_get (connectedUsers st) (uid b) of
                    None \<Rightarrow> False
                  | Some u \<Rightarrow> isBus u))"

text \<open>
  A location payload as the client sends it, \<open>{ lat, lon }\<close> with two numbers. The server
  never looks at it.
\<close>

fun numeric_field :: "string \<Rightarrow> jsval \<Rightarrow> bool" where
  "numeric_field k (JObj m) = (case fmlookup m k of Some (JNum x) \<Rightarrow> True | _ \<Rightarrow> False)"
| "numeric_field k _ = False"

definition has_numeric_coordinates :: "jsval \<Rightarrow> bool" where
  "has_numeric_coordinates d = (numeric_field ''lat'' d \<and> numeric_field ''lon'' d)"

subsection \<open>Invariants\<close>

text \<open>The keys of the registry are distinct, as the keys of a \<open>Map\<close> are.\<close>

definition keys_distinct :: "server \<Rightarrow> bool" where
  "keys_distinct st = distinct (map fst (connectedUsers st))"

text \<open>Every user object is stored under its own id.\<close>

definition ids_ok :: "server \<Rightarrow> bool" where
  "ids_ok st = (\<forall>k u. map_of (connectedUsers st) k = Some u \<longrightarrow> uid u = k)"

text \<open>A registered connection whose role flag is bus is the one the designation refers to.\<close>

definition flags_ok :: "server \<Rightarrow> bool" where
  "flags_ok st =
     (\<forall>k u. map_of (connectedUsers st) k = Some u \<longrightarrow> isBus u \<longrightarrow> designation st = Some k)"

definition invariant :: "server \<Rightarrow> bool" where
  "invariant st = (keys_distinct st \<and> ids_ok st \<and> flags_ok st)"

text \<open>The registered connections are the connected sockets.\<close>

definition sockets_ok :: "server \<Rightarrow> bool" where
  "sockets_ok st = (\<forall>s. (s \<in> sockets st) = (map_of (connectedUsers st) s \<noteq> None))"

definition connected_invariant :: "server \<Rightarrow> bool" where
  "connected_invariant st = (invariant st \<and> sockets_ok st \<and> designation_valid st)"

section \<open>Preservation of the invariants\<close>

lemmas handler_defs = on_connection_def on_send_location_def on_set_as_bus_def
  on_remove_bus_def on_disconnect_def map_get_def map_has_def map_set_def map_delete_def
  map_values_def bus_object_def

lemmas eval_defs = handler_defs init_server_def Let_def designation_def designation_valid_def
  at_most_one_bus_def has_numeric_coordinates_def fmlookup_of_list

text \<open>
  The properties of the object of a \<open>receive-location\<close> event: those of the payload, and the
  socket id and the role flag under \<open>id\<close> and \<open>isBus\<close> where the payload has no property of
  that name.
\<close>

lemma location_object_lookup:
  "fmlookup (location_object s b d) k =
     (case fmlookup (own_props d) k of
        Some v \<Rightarrow> Some v
      | None \<Rightarrow> (if k = ''id'' then Some (JStr s)
                 else if k = ''isBus'' then Some (JBool b) else None))"
  by (auto simp: location_object_def fmlookup_of_list fmlookup_dom_iff split: option.splits)

text \<open>
  A string payload \<open>"hi"\<close> and an array payload \<open>[1, 2]\<close> spread into their elements; a
  \<open>null\<close> payload adds nothing.
\<close>

lemma location_object_examples:
  "fmlookup (location_object ''a'' False (JStr ''hi'')) ''1'' = Some (JStr ''i'')"
  "fmlookup (location_object ''a'' False (JStr ''hi'')) ''id'' = Some (JStr ''a'')"
  "fmlookup (location_object ''a'' False (JArr [JNum 1, JNum 2])) ''0'' = Some (JNum 1)"
  "location_object ''a'' True JNull = fmap_of_list [(''id'', JStr ''a''), (''isBus'', JBool True)]"
  by (simp_all add: location_object_lookup location_object_def fmlookup_of_list
                    index_key.simps digit_def upt_rec)

text \<open>
  The first three invariants hold after every inbound event, whatever socket id it carries.
\<close>

lemma keys_distinct_step: "keys_distinct st \<Longrightarrow> keys_distinct (fst (step i st))"
  by (cases i)
     (auto simp: keys_distinct_def handler_defs Let_def distinct_update distinct_delete
           split: option.splits if_splits)

lemma ids_ok_step: "ids_ok st \<Longrightarrow> ids_ok (fst (step i st))"
  by (cases i)
     (auto simp: ids_ok_def handler_defs Let_def update_conv' delete_conv'
           split: option.splits if_splits)

lemma flags_ok_step: "ids_ok st \<Longrightarrow> flags_ok st \<Longrightarrow> flags_ok (fst (step i st))"
  by (cases i)
     (auto simp: ids_ok_def flags_ok_def designation_def handler_defs Let_def
                 update_conv' delete_conv'
           split: option.splits if_splits)

lemma invariant_init: "invariant init_server"
  by (simp add: invariant_def keys_distinct_def ids_ok_def flags_ok_def init_server_def)

lemma invariant_step: "invariant st \<Longrightarrow> invariant (fst (step i st))"
  by (simp add: invariant_def keys_distinct_step ids_ok_step flags_ok_step)

lemma invariant_run: "invariant st \<Longrightarrow> invariant (run ins st)"
  by (induction ins arbitrary: st) (simp_all add: invariant_step)

lemma invariant_ids_ok: "invariant st \<Longrightarrow> ids_ok st"
  by (simp add: invariant_def)

text \<open>
  With distinct keys, if every entry that satisfies \<open>P\<close> sits under the one key \<open>k0\<close>, at
  most one entry satisfies \<open>P\<close>.
\<close>

lemma count_le_one:
  "distinct (map fst xs) \<Longrightarrow> (\<forall>k u. (k, u) \<in> set xs \<longrightarrow> P u \<longrightarrow> k = k0)
     \<Longrightarrow> length (filter (\<lambda>(k, u). P u) xs) \<le> 1"
proof (induction xs)
  case Nil
  then show ?case by simp
next
  case (Cons x xs)
  obtain k u where x: "x = (k, u)" by (cases x)
  show ?case
  proof (cases "P u")
    case False
    with Cons x show ?thesis by auto
  next
    case True
    with Cons.prems x have k: "k = k0" by auto
    have "filter (\<lambda>(k, u). P u) xs = []"
    proof (rule ccontr)
      assume "filter (\<lambda>(k, u). P u) xs \<noteq> []"
      then obtain y where y: "y \<in> set xs" "(\<lambda>(k, u). P u) y"
        by (auto simp: filter_empty_conv)
      obtain k' u' where y': "y = (k', u')" by (cases y)
      with y Cons.prems have "k' = k0" by auto
      with y y' k x Cons.prems(1) show False by force
    qed
    with x True show ?thesis by simp
  qed
qed

lemma invariant_at_most_one_bus: "invariant st \<Longrightarrow> at_most_one_bus st"
proof -
  assume inv: "invariant st"
  have d: "distinct (map fst (connectedUsers st))"
    using inv by (simp add: invariant_def keys_distinct_def)
  have "\<forall>k u. (k, u) \<in> set (connectedUsers st) \<longrightarrow> isBus u \<longrightarrow> k = the (designation st)"
  proof (intro allI impI)
    fix k u
    assume "(k, u) \<in> set (connectedUsers st)" and b: "isBus u"
    with d have "map_of (connectedUsers st) k = Some u" by simp
    with inv b have "designation st = Some k" by (simp add: invariant_def flags_ok_def)
    then show "k = the (designation st)" by simp
  qed
  with d show ?thesis
    unfolding at_most_one_bus_def by (rule count_le_one)
qed

text \<open>
  The other two need the event to come from a socket that socket.io can deliver it for.
\<close>

lemma sockets_ok_step: "sockets_ok st \<Longrightarrow> sockets_ok (fst (step i st))"
  by (cases i)
     (auto simp: sockets_ok_def handler_defs Let_def update_conv' delete_conv'
           split: option.splits if_splits)

lemma designation_valid_step:
  "sockets_ok st \<Longrightarrow> ids_ok st \<Longrightarrow> enabled i st \<Longrightarrow> designation_valid st
     \<Longrightarrow> designation_valid (fst (step i st))"
  by (cases i)
     (auto simp: sockets_ok_def ids_ok_def designation_valid_def handler_defs Let_def
                 update_conv' delete_conv'
           split: option.splits if_splits)

lemma connected_invariant_run:
  "connected_invariant st \<Longrightarrow> well_formed ins st \<Longrightarrow> connected_invariant (run ins st)"
proof (induction ins arbitrary: st)
  case Nil
  then show ?case by simp
next
  case (Cons i ins)
  from Cons.prems have "connected_invariant (fst (step i st))"
    by (simp add: connected_invariant_def invariant_step sockets_ok_step designation_valid_step
                  invariant_ids_ok)
  with Cons show ?case by simp
qed

lemma connected_invariant_init: "connected_invariant init_server"
proof -
  have "sockets_ok init_server" "designation_valid init_server"
    by (simp_all add: sockets_ok_def designation_valid_def init_server_def)
  with invariant_init show ?thesis by (simp add: connected_invariant_def)
qed

lemma reachable_invariant: "reachable st \<Longrightarrow> connected_invariant st"
  unfolding reachable_def using connected_invariant_run [OF connected_invariant_init] by blast

lemma reachable_run: "well_formed ins init_server \<Longrightarrow> reachable (run ins init_server)"
  unfolding reachable_def by blast

text \<open>
  A location report that socket.io can deliver comes from a registered socket: the entry
  is made before the handlers are registered and deleted only by the socket's own
  \<open>disconnect\<close> handler. The branch of \<open>send-location\<close> for a missing user is never taken.
\<close>

lemma sender_registered:
  "reachable st \<Longrightarrow> enabled (SendLocation s d) st \<Longrightarrow> map_get (connectedUsers st) s \<noteq> None"
  using reachable_invariant [of st]
  by (simp add: connected_invariant_def sockets_ok_def map_get_def)

lemma isBus_update_same: "isBus u \<Longrightarrow> u\<lparr>isBus := True\<rparr> = u"
  by (cases u) simp

lemma user_rebuilt:
  "isBus u \<Longrightarrow> uid u = s \<Longrightarrow> \<lparr>uid = s, isBus = True, location = location u\<rparr> = u"
  by (cases u) simp

section \<open>The claims\<close>

subsection \<open>C1: who receives a location report\<close>

text \<open>
  C1 says that the \<open>receive-location\<close> event of a report reaches every other connected client
  and never the reporting client. The handler sends it with \<open>io.emit\<close>, which reaches every
  socket of the namespace. With \<open>a\<close> and \<open>b\<close> connected, the report \<open>{ lat: 18, lon: 73 }\<close> of
  \<open>a\<close> comes back to \<open>a\<close>, as the object with \<open>id\<close> \<open>a\<close> and the two coordinates.
\<close>

theorem send_location_self_echo:
  "delivered (sockets (run [Connection ''a'', Connection ''b''] init_server))
     (snd (step (SendLocation ''a'' (JObj (fmap_of_list [(''lat'', JNum 18), (''lon'', JNum 73)]))) (run [Connection ''a'', Connection ''b''] init_server))) ''a''
   = [ReceiveLocation (location_object ''a'' False (JObj (fmap_of_list [(''lat'', JNum 18), (''lon'', JNum 73)])))]
   \<and> fmlookup (location_object ''a'' False (JObj (fmap_of_list [(''lat'', JNum 18), (''lon'', JNum 73)]))) ''id'' = Some (JStr ''a'')
   \<and> fmlookup (location_object ''a'' False (JObj (fmap_of_list [(''lat'', JNum 18), (''lon'', JNum 73)]))) ''lat'' = Some (JNum 18)"
  by (simp add: eval_defs location_object_lookup)

text \<open>
  C1, amended: for every connected client that sends a location report, the resulting
  \<open>receive-location\<close> event, which is the object
  \<open>{ id: socket.id, isBus: user?.isBus || false, ...data }\<close> the handler builds, is delivered
  once to every connected client, the reporting client included.
\<close>

theorem send_location_reaches_all:
  assumes "s \<in> sockets st" and "step (SendLocation s d) st = (st', out)"
  shows "sockets st' = sockets st
    \<and> (\<forall>r \<in> sockets st'. delivered (sockets st') out r
          = [ReceiveLocation
               (location_object s (case map_get (connectedUsers st) s of
                                     Some u \<Rightarrow> isBus u | None \<Rightarrow> False) d)])
    \<and> delivered (sockets st') out s
          = [ReceiveLocation
               (location_object s (case map_get (connectedUsers st) s of
                                     Some u \<Rightarrow> isBus u | None \<Rightarrow> False) d)]"
  using assms by (auto simp: on_send_location_def Let_def split: option.splits)

theorem send_location_reaches_all_witness:
  "''a'' \<in> sockets (run [Connection ''a'', Connection ''b''] init_server)
   \<and> delivered (sockets (run [Connection ''a'', Connection ''b''] init_server))
       (snd (step (SendLocation ''a'' (JObj (fmap_of_list [(''id'', JStr ''b''), (''isBus'', JBool True), (''lat'', JStr ''x'')]))) (run [Connection ''a'', Connection ''b''] init_server))) ''a''
     = [ReceiveLocation (location_object ''a'' False (JObj (fmap_of_list [(''id'', JStr ''b''), (''isBus'', JBool True), (''lat'', JStr ''x'')])))]
   \<and> delivered (sockets (run [Connection ''a'', Connection ''b''] init_server))
       (snd (step (SendLocation ''a'' (JObj (fmap_of_list [(''id'', JStr ''b''), (''isBus'', JBool True), (''lat'', JStr ''x'')]))) (run [Connection ''a'', Connection ''b''] init_server))) ''b''
     = [ReceiveLocation (location_object ''a'' False (JObj (fmap_of_list [(''id'', JStr ''b''), (''isBus'', JBool True), (''lat'', JStr ''x'')])))]"
proof -
  have h: "''a'' \<in> sockets (run [Connection ''a'', Connection ''b''] init_server)"
    by (simp add: eval_defs)
  show ?thesis
    using h send_location_reaches_all [OF h surjective_pairing, of "JObj (fmap_of_list [(''id'', JStr ''b''), (''isBus'', JBool True), (''lat'', JStr ''x'')])"]
    by (simp add: eval_defs)
qed

subsection \<open>C2: at most one bus\<close>

text \<open>
  C2: after every prefix of every sequence of inbound events (connections and location
  reports as well as promotions, demotions and disconnections, from any socket ids), at most
  one registered connection has its role flag set to bus.
\<close>

theorem one_bus_at_most: "at_most_one_bus (run (take n ins) init_server)"
  by (rule invariant_at_most_one_bus [OF invariant_run [OF invariant_init]])

theorem one_bus_at_most_witness:
  "at_most_one_bus (run (take 5 [Connection ''a'', Connection ''b'', SetAsBus ''a'',
       SetAsBus ''b'', RemoveBus ''a'', Disconnect ''b'']) init_server)
   \<and> map isBus (map_values (connectedUsers (run (take 5 [Connection ''a'', Connection ''b'',
       SetAsBus ''a'', SetAsBus ''b'', RemoveBus ''a'', Disconnect ''b'']) init_server)))
     = [False, True]"
  using one_bus_at_most [of 5 "[Connection ''a'', Connection ''b'', SetAsBus ''a'',
       SetAsBus ''b'', RemoveBus ''a'', Disconnect ''b'']"]
  by (simp add: eval_defs)

subsection \<open>C3: the designation refers to a registered bus\<close>

text \<open>
  C3: in every state reached by a sequence of connect, location-report, promote, demote and
  disconnect events that socket.io can deliver (each event from a connected socket, each
  connection with an id no connected socket has), if the bus designation is set then the
  connection it refers to is in the registry and has role bus.
\<close>

theorem designation_refers_to_bus:
  "well_formed ins init_server \<Longrightarrow> designation_valid (run ins init_server)"
  using connected_invariant_run [OF connected_invariant_init]
  by (simp add: connected_invariant_def)

theorem designation_refers_to_bus_witness:
  "well_formed [Connection ''a'', Connection ''b'', SetAsBus ''a'',
       SendLocation ''a'' (JObj (fmap_of_list [(''lat'', JNum 18), (''lon'', JNum 73)])), SetAsBus ''b'', Disconnect ''a''] init_server
   \<and> designation (run [Connection ''a'', Connection ''b'', SetAsBus ''a'',
       SendLocation ''a'' (JObj (fmap_of_list [(''lat'', JNum 18), (''lon'', JNum 73)])), SetAsBus ''b'', Disconnect ''a''] init_server) = Some ''b''
   \<and> designation_valid (run [Connection ''a'', Connection ''b'', SetAsBus ''a'',
       SendLocation ''a'' (JObj (fmap_of_list [(''lat'', JNum 18), (''lon'', JNum 73)])), SetAsBus ''b'', Disconnect ''a''] init_server)"
proof -
  have h: "well_formed [Connection ''a'', Connection ''b'', SetAsBus ''a'',
       SendLocation ''a'' (JObj (fmap_of_list [(''lat'', JNum 18), (''lon'', JNum 73)])), SetAsBus ''b'', Disconnect ''a''] init_server"
    by (simp add: eval_defs)
  show ?thesis
    using h designation_refers_to_bus [OF h] by (simp add: eval_defs)
qed

subsection \<open>C4: a promotion displaces the current bus\<close>

text \<open>
  C4: in a reachable state where the designation refers to connection \<open>A\<close> and a different
  registered connection \<open>B\<close> requests promotion, afterwards the role of \<open>A\<close> is rider, \<open>A\<close> has
  received the demotion notice, the role of \<open>B\<close> is bus, the designation refers to \<open>B\<close>, and
  every connection has received the \<open>bus-user-changed\<close> broadcast naming \<open>B\<close>.
\<close>

theorem promotion_displaces:
  assumes "reachable st" and "busUser st = Some a" and "map_has (connectedUsers st) B"
    and "uid a \<noteq> B" and "step (SetAsBus B) st = (st', out)"
  shows "(\<exists>u. map_get (connectedUsers st') (uid a) = Some u \<and> \<not> isBus u)
    \<and> delivered (sockets st') out (uid a)
        = [BusStatusChanged False, BusUserChanged (Some B) (busUser st')]
    \<and> (\<exists>u. map_get (connectedUsers st') B = Some u \<and> isBus u)
    \<and> designation st' = Some B
    \<and> (\<forall>r \<in> sockets st'.
          BusUserChanged (Some B) (busUser st') \<in> set (delivered (sockets st') out r))"
proof -
  have inv: "connected_invariant st" using assms(1) by (rule reachable_invariant)
  then have so: "sockets_ok st" and dv: "designation_valid st" and ids: "ids_ok st"
    by (simp_all add: connected_invariant_def invariant_def)
  from dv assms(2) obtain ua where ua: "map_of (connectedUsers st) (uid a) = Some ua"
    by (auto simp: designation_valid_def map_get_def split: option.splits)
  from assms(3) obtain ub where ub: "map_of (connectedUsers st) B = Some ub"
    by (auto simp: map_has_def)
  from ids ub have idb: "uid ub = B" by (simp add: ids_ok_def)
  from so ua have sa: "uid a \<in> sockets st" by (simp add: sockets_ok_def)
  from so ub have sb: "B \<in> sockets st" by (simp add: sockets_ok_def)
  have st': "st' = st\<lparr>connectedUsers := map_set B (ub\<lparr>isBus := True\<rparr>)
                        (map_set (uid a) (ua\<lparr>isBus := False\<rparr>) (connectedUsers st)),
                     busUser := Some (bus_object B (ub\<lparr>isBus := True\<rparr>))\<rparr>"
    and out: "out = [IoToEmit (uid a) (BusStatusChanged False),
                     SocketEmit B (BusStatusChanged True),
                     IoEmit (BusUserChanged (Some B) (Some (bus_object B (ub\<lparr>isBus := True\<rparr>))))]"
    using assms(2,4,5) ua ub
    by (simp_all add: on_set_as_bus_def map_get_def map_has_def map_set_def update_conv' Let_def)
  show ?thesis
    using assms(4) sa sb idb
    by (simp add: st' out map_get_def map_set_def update_conv' designation_def bus_object_def)
qed

theorem promotion_displaces_witness:
  "reachable (run [Connection ''a'', Connection ''b'', SetAsBus ''a''] init_server)
   \<and> busUser (run [Connection ''a'', Connection ''b'', SetAsBus ''a''] init_server) = Some \<lparr>uid = ''a'', isBus = True, location = JNull\<rparr>
   \<and> map_has (connectedUsers (run [Connection ''a'', Connection ''b'', SetAsBus ''a''] init_server)) ''b''
   \<and> designation (fst (step (SetAsBus ''b'') (run [Connection ''a'', Connection ''b'', SetAsBus ''a''] init_server))) = Some ''b''
   \<and> map isBus (map_values (connectedUsers (fst (step (SetAsBus ''b'') (run [Connection ''a'', Connection ''b'', SetAsBus ''a''] init_server)))))
       = [False, True]"
proof -
  have r: "reachable (run [Connection ''a'', Connection ''b'', SetAsBus ''a''] init_server)"
    by (rule reachable_run) (simp add: eval_defs)
  have b: "busUser (run [Connection ''a'', Connection ''b'', SetAsBus ''a''] init_server) = Some \<lparr>uid = ''a'', isBus = True, location = JNull\<rparr>"
    by (simp add: eval_defs)
  have s: "map_has (connectedUsers (run [Connection ''a'', Connection ''b'', SetAsBus ''a''] init_server)) ''b''"
    by (simp add: eval_defs)
  have n: "uid \<lparr>uid = ''a'', isBus = True, location = JNull\<rparr> \<noteq> ''b''"
    by simp
  have e: "map isBus (map_values (connectedUsers (fst (step (SetAsBus ''b'') (run [Connection ''a'', Connection ''b'', SetAsBus ''a''] init_server)))))
       = [False, True]"
    by (simp add: eval_defs)
  from promotion_displaces [OF r b s n surjective_pairing]
  have "designation (fst (step (SetAsBus ''b'') (run [Connection ''a'', Connection ''b'', SetAsBus ''a''] init_server))) = Some ''b''"
    by simp
  with r b s e show ?thesis by simp
qed

subsection \<open>C5: the bus disconnects\<close>

text \<open>
  C5: if the connection the designation refers to disconnects, then after the \<open>disconnect\<close>
  handler the designation is none, the registry has no entry for the connection, and every
  remaining connection has received the \<open>bus-user-changed\<close> broadcast with no bus (followed
  by the \<open>user-disconnected\<close> notice); the departed socket receives nothing.
\<close>

theorem disconnect_clears_bus:
  assumes "busUser st = Some b" and "uid b = s" and "step (Disconnect s) st = (st', out)"
  shows "busUser st' = None
    \<and> map_get (connectedUsers st') s = None
    \<and> sockets st' = sockets st - {s}
    \<and> (\<forall>r \<in> sockets st'. delivered (sockets st') out r
          = [BusUserChanged None None, UserDisconnected s])
    \<and> delivered (sockets st') out s = []"
  using assms by (auto simp: on_disconnect_def map_get_def map_delete_def delete_conv')

theorem disconnect_clears_bus_witness:
  "busUser (run [Connection ''a'', Connection ''b'', SetAsBus ''a''] init_server) = Some \<lparr>uid = ''a'', isBus = True, location = JNull\<rparr>
   \<and> busUser (fst (step (Disconnect ''a'') (run [Connection ''a'', Connection ''b'', SetAsBus ''a''] init_server))) = None
   \<and> delivered (sockets (fst (step (Disconnect ''a'') (run [Connection ''a'', Connection ''b'', SetAsBus ''a''] init_server))))
       (snd (step (Disconnect ''a'') (run [Connection ''a'', Connection ''b'', SetAsBus ''a''] init_server))) ''b''
     = [BusUserChanged None None, UserDisconnected ''a'']"
proof -
  have b: "busUser (run [Connection ''a'', Connection ''b'', SetAsBus ''a''] init_server) = Some \<lparr>uid = ''a'', isBus = True, location = JNull\<rparr>"
    by (simp add: eval_defs)
  have n: "uid \<lparr>uid = ''a'', isBus = True, location = JNull\<rparr> = ''a''"
    by simp
  have s: "''b'' \<in> sockets (fst (step (Disconnect ''a'') (run [Connection ''a'', Connection ''b'', SetAsBus ''a''] init_server)))"
    by (simp add: eval_defs)
  from disconnect_clears_bus [OF b n surjective_pairing] s b show ?thesis
    by (simp add: eval_defs)
qed

subsection \<open>C6: a report without numeric coordinates\<close>

text \<open>
  C6 says that a report whose payload lacks numeric coordinates is dropped, with no mutation
  and no broadcast. The handler never inspects the payload. With \<open>a\<close> and \<open>b\<close> connected and
  \<open>a\<close> sending \<open>{ lat: "north" }\<close>, the location of \<open>a\<close> in the registry changes from \<open>null\<close> to
  that payload and \<open>b\<close> receives the \<open>receive-location\<close> event, with \<open>lat\<close> \<open>"north"\<close>.
\<close>

theorem send_location_malformed_not_dropped:
  "\<not> has_numeric_coordinates (JObj (fmap_of_list [(''lat'', JStr ''north'')]))
   \<and> map_get (connectedUsers (run [Connection ''a'', Connection ''b''] init_server)) ''a'' = Some \<lparr>uid = ''a'', isBus = False, location = JNull\<rparr>
   \<and> map_get (connectedUsers (fst (step (SendLocation ''a'' (JObj (fmap_of_list [(''lat'', JStr ''north'')]))) (run [Connection ''a'', Connection ''b''] init_server)))) ''a''
       = Some \<lparr>uid = ''a'', isBus = False, location = JObj (fmap_of_list [(''lat'', JStr ''north'')])\<rparr>
   \<and> delivered (sockets (run [Connection ''a'', Connection ''b''] init_server))
         (snd (step (SendLocation ''a'' (JObj (fmap_of_list [(''lat'', JStr ''north'')]))) (run [Connection ''a'', Connection ''b''] init_server))) ''b''
       = [ReceiveLocation (location_object ''a'' False (JObj (fmap_of_list [(''lat'', JStr ''north'')])))]
   \<and> fmlookup (location_object ''a'' False (JObj (fmap_of_list [(''lat'', JStr ''north'')]))) ''lat'' = Some (JStr ''north'')"
  by (simp add: eval_defs location_object_lookup)

text \<open>
  C6, amended: a location report is not validated. For every payload, with or without
  numeric coordinates, from a registered sender, the location of the sender's registry entry
  is set to the payload and one \<open>receive-location\<close> event is delivered to every connected
  client. The event is the object \<open>{ id, isBus, ...payload }\<close>: it has every own property of
  the payload (none for \<open>null\<close>, \<open>undefined\<close>, a boolean or a number), and the sender's id and
  role flag under \<open>id\<close> and \<open>isBus\<close> only where the payload has no property of that name.
\<close>

theorem send_location_stores_any_payload:
  assumes "map_get (connectedUsers st) s = Some u" and "step (SendLocation s d) st = (st', out)"
  shows "map_get (connectedUsers st') s = Some (u\<lparr>location := d\<rparr>)
    \<and> out = [IoEmit (ReceiveLocation (location_object s (isBus u) d))]
    \<and> (\<forall>r \<in> sockets st'. delivered (sockets st') out r
          = [ReceiveLocation (location_object s (isBus u) d)])
    \<and> (\<forall>k. fmlookup (location_object s (isBus u) d) k =
          (case fmlookup (own_props d) k of
             Some v \<Rightarrow> Some v
           | None \<Rightarrow> (if k = ''id'' then Some (JStr s)
                      else if k = ''isBus'' then Some (JBool (isBus u)) else None)))"
proof -
  have "map_get (connectedUsers st') s = Some (u\<lparr>location := d\<rparr>)
    \<and> out = [IoEmit (ReceiveLocation (location_object s (isBus u) d))]
    \<and> (\<forall>r \<in> sockets st'. delivered (sockets st') out r
          = [ReceiveLocation (location_object s (isBus u) d)])"
    using assms
    by (auto simp: on_send_location_def map_get_def map_set_def update_conv' Let_def)
  then show ?thesis
    by (simp add: location_object_lookup)
qed

theorem send_location_stores_any_payload_witness:
  "map_get (connectedUsers (run [Connection ''a'', Connection ''b''] init_server)) ''a'' = Some \<lparr>uid = ''a'', isBus = False, location = JNull\<rparr>
   \<and> \<not> has_numeric_coordinates (JObj (fmap_of_list [(''id'', JStr ''b''), (''isBus'', JBool True), (''lat'', JStr ''x'')]))
   \<and> map_get (connectedUsers (fst (step (SendLocation ''a'' (JObj (fmap_of_list [(''id'', JStr ''b''), (''isBus'', JBool True), (''lat'', JStr ''x'')]))) (run [Connection ''a'', Connection ''b''] init_server)))) ''a''
       = Some \<lparr>uid = ''a'', isBus = False, location = JObj (fmap_of_list [(''id'', JStr ''b''), (''isBus'', JBool True), (''lat'', JStr ''x'')])\<rparr>
   \<and> snd (step (SendLocation ''a'' (JObj (fmap_of_list [(''id'', JStr ''b''), (''isBus'', JBool True), (''lat'', JStr ''x'')]))) (run [Connection ''a'', Connection ''b''] init_server))
       = [IoEmit (ReceiveLocation (location_object ''a'' False (JObj (fmap_of_list [(''id'', JStr ''b''), (''isBus'', JBool True), (''lat'', JStr ''x'')]))))]
   \<and> fmlookup (location_object ''a'' False (JObj (fmap_of_list [(''id'', JStr ''b''), (''isBus'', JBool True), (''lat'', JStr ''x'')]))) ''id'' = Some (JStr ''b'')
   \<and> fmlookup (location_object ''a'' False (JObj (fmap_of_list [(''id'', JStr ''b''), (''isBus'', JBool True), (''lat'', JStr ''x'')]))) ''isBus'' = Some (JBool True)
   \<and> fmlookup (location_object ''a'' False (JObj (fmap_of_list [(''id'', JStr ''b''), (''isBus'', JBool True), (''lat'', JStr ''x'')]))) ''lat'' = Some (JStr ''x'')
   \<and> fmlookup (location_object ''a'' False JNull) ''id'' = Some (JStr ''a'')
   \<and> fmlookup (location_object ''a'' False JNull) ''lat'' = None"
proof -
  have h: "map_get (connectedUsers (run [Connection ''a'', Connection ''b''] init_server)) ''a'' = Some \<lparr>uid = ''a'', isBus = False, location = JNull\<rparr>"
    by (simp add: eval_defs)
  show ?thesis
    using h send_location_stores_any_payload [OF h surjective_pairing, of "JObj (fmap_of_list [(''id'', JStr ''b''), (''isBus'', JBool True), (''lat'', JStr ''x'')])"]
    by (simp add: has_numeric_coordinates_def fmlookup_of_list location_object_lookup)
qed

subsection \<open>C8: the snapshot of a new connection\<close>

text \<open>
  C8: from every state, a newly connecting client is registered as a rider without location,
  the other entries and the designation stay as they were, and the handler makes exactly one
  emit call, the \<open>users-list\<close> snapshot to the new socket alone. Its \<open>users\<close> are the values
  of the registry after the registration, so every registered connection, the new one
  included, is in it, and its \<open>currentBus\<close> is the designated bus, or \<open>null\<close> for none.
\<close>

theorem connection_snapshot:
  assumes "step (Connection s) st = (st', out)"
  shows "map_get (connectedUsers st') s = Some \<lparr>uid = s, isBus = False, location = JNull\<rparr>
    \<and> (\<forall>k. k \<noteq> s \<longrightarrow> map_get (connectedUsers st') k = map_get (connectedUsers st) k)
    \<and> busUser st' = busUser st
    \<and> out = [SocketEmit s (UsersList (map_values (connectedUsers st')) (busUser st'))]
    \<and> delivered (sockets st') out s
        = [UsersList (map_values (connectedUsers st')) (busUser st')]
    \<and> (\<forall>r. r \<noteq> s \<longrightarrow> delivered (sockets st') out r = [])
    \<and> (\<forall>k u. map_get (connectedUsers st') k = Some u
          \<longrightarrow> u \<in> set (map_values (connectedUsers st')))"
proof -
  have st': "st' = st\<lparr>connectedUsers :=
                       AList.update s \<lparr>uid = s, isBus = False, location = JNull\<rparr>
                         (connectedUsers st),
                     sockets := insert s (sockets st)\<rparr>"
    and out: "out = [SocketEmit s (UsersList (map_values (connectedUsers st')) (busUser st'))]"
    using assms by (auto simp: on_connection_def map_set_def Let_def)
  have vals: "\<forall>k u. map_get (connectedUsers st') k = Some u
                \<longrightarrow> u \<in> set (map_values (connectedUsers st'))"
    unfolding map_get_def map_values_def by (force dest: map_of_SomeD)
  have rest: "map_get (connectedUsers st') s = Some \<lparr>uid = s, isBus = False, location = JNull\<rparr>
    \<and> (\<forall>k. k \<noteq> s \<longrightarrow> map_get (connectedUsers st') k = map_get (connectedUsers st) k)
    \<and> busUser st' = busUser st"
    by (simp add: st' map_get_def update_conv')
  have del: "delivered (sockets st') out s
        = [UsersList (map_values (connectedUsers st')) (busUser st')]
    \<and> (\<forall>r. r \<noteq> s \<longrightarrow> delivered (sockets st') out r = [])"
    by (simp add: out) (simp add: st')
  from rest out del vals show ?thesis by simp
qed

theorem connection_snapshot_witness:
  "delivered
     (sockets (fst (step (Connection ''b'') (run [Connection ''a'', SetAsBus ''a''] init_server))))
     (snd (step (Connection ''b'') (run [Connection ''a'', SetAsBus ''a''] init_server))) ''b''
   = [UsersList [\<lparr>uid = ''a'', isBus = True, location = JNull\<rparr>, \<lparr>uid = ''b'', isBus = False, location = JNull\<rparr>] (Some \<lparr>uid = ''a'', isBus = True, location = JNull\<rparr>)]"
  using connection_snapshot [OF surjective_pairing, of "''b''"
      "run [Connection ''a'', SetAsBus ''a''] init_server"]
  by (simp add: eval_defs)

subsection \<open>C9: the bus asks for promotion again\<close>

text \<open>
  C9: in a reachable state, if the connection the designation refers to requests promotion
  again, the registry is the same as before, the designation refers to the same connection,
  which is still registered with role bus and is the only one, and the \<open>bus-user-changed\<close>
  broadcast is delivered again to every connection. (The \<open>busUser\<close> object itself is rebuilt
  from the registry entry.)
\<close>

theorem repromotion_idempotent:
  assumes "reachable st" and "busUser st = Some b" and "uid b = s"
    and "step (SetAsBus s) st = (st', out)"
  shows "connectedUsers st' = connectedUsers st
    \<and> designation st' = designation st
    \<and> sockets st' = sockets st
    \<and> designation st' = Some s
    \<and> busUser st' = map_get (connectedUsers st') s
    \<and> (\<exists>u. map_get (connectedUsers st') s = Some u \<and> isBus u)
    \<and> at_most_one_bus st'
    \<and> (\<forall>r \<in> sockets st'.
          BusUserChanged (Some s) (busUser st') \<in> set (delivered (sockets st') out r))"
proof -
  have inv: "connected_invariant st" using assms(1) by (rule reachable_invariant)
  then have dv: "designation_valid st" and ids: "ids_ok st" and i: "invariant st"
    by (simp_all add: connected_invariant_def invariant_def)
  from dv assms(2,3) obtain u where u: "map_of (connectedUsers st) s = Some u" and bu: "isBus u"
    by (auto simp: designation_valid_def map_get_def split: option.splits)
  from ids u have idu: "uid u = s" by (simp add: ids_ok_def)
  have reg: "AList.update s u (connectedUsers st) = connectedUsers st"
    using u by (rule update_triv)
  have st': "st' = st\<lparr>busUser := Some u\<rparr>"
    and out: "out = [IoToEmit s (BusStatusChanged False), SocketEmit s (BusStatusChanged True),
                 IoEmit (BusUserChanged (Some s) (Some u))]"
    using assms(2,3,4) u bu idu reg
    by (simp_all add: on_set_as_bus_def map_get_def map_has_def map_set_def update_conv' Let_def
                      bus_object_def isBus_update_same user_rebuilt)
  have "invariant (fst (step (SetAsBus s) st))" using i by (rule invariant_step)
  then have amo: "at_most_one_bus st'" using assms(4) by (simp add: invariant_at_most_one_bus)
  show ?thesis
    using assms(2,3) u bu idu amo
    by (simp add: st' out map_get_def designation_def at_most_one_bus_def)
qed

theorem repromotion_idempotent_witness:
  "reachable (run [Connection ''a'', Connection ''b'', SetAsBus ''a''] init_server)
   \<and> busUser (run [Connection ''a'', Connection ''b'', SetAsBus ''a''] init_server) = Some \<lparr>uid = ''a'', isBus = True, location = JNull\<rparr>
   \<and> connectedUsers (fst (step (SetAsBus ''a'') (run [Connection ''a'', Connection ''b'', SetAsBus ''a''] init_server))) = connectedUsers (run [Connection ''a'', Connection ''b'', SetAsBus ''a''] init_server)
   \<and> designation (fst (step (SetAsBus ''a'') (run [Connection ''a'', Connection ''b'', SetAsBus ''a''] init_server))) = Some ''a''"
proof -
  have r: "reachable (run [Connection ''a'', Connection ''b'', SetAsBus ''a''] init_server)"
    by (rule reachable_run) (simp add: eval_defs)
  have b: "busUser (run [Connection ''a'', Connection ''b'', SetAsBus ''a''] init_server) = Some \<lparr>uid = ''a'', isBus = True, location = JNull\<rparr>"
    by (simp add: eval_defs)
  have n: "uid \<lparr>uid = ''a'', isBus = True, location = JNull\<rparr> = ''a''"
    by simp
  from repromotion_idempotent [OF r b n surjective_pairing]
  have "connectedUsers (fst (step (SetAsBus ''a'') (run [Connection ''a'', Connection ''b'', SetAsBus ''a''] init_server))) = connectedUsers (run [Connection ''a'', Connection ''b'', SetAsBus ''a''] init_server)
   \<and> designation (fst (step (SetAsBus ''a'') (run [Connection ''a'', Connection ''b'', SetAsBus ''a''] init_server))) = Some ''a''"
    by blast
  with r b show ?thesis
    by blast
qed

subsection \<open>C10: a demotion request from a connection that is not the bus\<close>

text \<open>
  C10: for every connection id that the designation does not refer to, the \<open>remove-bus\<close>
  handler returns the state it was given, registry, role flags and designation, and makes no
  emit call, so no connection receives anything.
\<close>

theorem remove_bus_noop:
  assumes "designation st \<noteq> Some s"
  shows "step (RemoveBus s) st = (st, [])
    \<and> delivered (sockets st) (snd (step (RemoveBus s) st)) r = []"
  using assms by (auto simp: on_remove_bus_def designation_def split: option.splits)

theorem remove_bus_noop_witness:
  "designation (run [Connection ''a'', Connection ''b'', SetAsBus ''a''] init_server) \<noteq> Some ''b''
   \<and> step (RemoveBus ''b'') (run [Connection ''a'', Connection ''b'', SetAsBus ''a''] init_server) = (run [Connection ''a'', Connection ''b'', SetAsBus ''a''] init_server, [])"
proof -
  have h: "designation (run [Connection ''a'', Connection ''b'', SetAsBus ''a''] init_server) \<noteq> Some ''b''"
    by (simp add: eval_defs)
  from remove_bus_noop [OF h] h show ?thesis
    by simp
qed

end
